theory Spec2Isabelle
  imports Complex_Main
begin

section \<open>The forward and backward loops of PlumedMain\<close>

text \<open>
  \<^verbatim>\<open>PlumedMain::justCalculate\<close> and \<^verbatim>\<open>PlumedMain::backwardPropagate\<close>
  (the file core/PbcAction.cpp of the sources, lines 2142 to 2238) both walk the action set, the first from \<^verbatim>\<open>begin()\<close>
  to \<^verbatim>\<open>end()\<close>, the second from \<^verbatim>\<open>rbegin()\<close> to \<^verbatim>\<open>rend()\<close>.
  An action is the object that the set owns; what the two loops read of it is
  its label, whether it is active, whether it is an \<^verbatim>\<open>ActionWithValue\<close>,
  whether it is an \<^verbatim>\<open>ActionAtomistic\<close> and whether it asks for numerical
  derivatives.  Neither loop changes whether an action is active, and the
  flag is taken to be the same in both.  What the loops do to an action is
  recorded as a trace of events, in the order in which the calls are made.
\<close>

record action =
  label :: string
  isActive :: bool
  withValue :: bool
  atomistic :: bool
  checkNumericalDerivatives :: bool

datatype event =
    ClearInputForces string
  | ClearDerivatives string
  | SetupForCalculation string
  | RetrieveAtoms string
  | CalculateNumericalDerivatives string
  | Calculate string
  | GetOutputQuantity string
  | SetupConstantValues string
  | SetGradientsIfNeeded string
  | Apply string

record plumed_main =
  active :: bool
  actionSet :: "action list"
  firststep :: bool

text \<open>The body of the forward loop for one action \<^verbatim>\<open>p\<close>.\<close>

definition calculate_action :: "bool \<Rightarrow> action \<Rightarrow> event list" where
  "calculate_action fs p =
     (if isActive p then
        (if withValue p
         then [ClearInputForces (label p), ClearDerivatives (label p), SetupForCalculation (label p)]
         else if atomistic p then [RetrieveAtoms (label p)] else [])
        @ [if checkNumericalDerivatives p then CalculateNumericalDerivatives (label p)
           else Calculate (label p)]
        @ (if withValue p then [GetOutputQuantity (label p), GetOutputQuantity (label p)] else [])
        @ (if fs then [SetupConstantValues (label p)] else [])
        @ (if withValue p then [SetGradientsIfNeeded (label p)] else [])
      else [])"

text \<open>The forward loop \<^verbatim>\<open>for(const auto & pp : actionSet)\<close>.\<close>

fun calculate_loop :: "bool \<Rightarrow> action list \<Rightarrow> event list" where
  "calculate_loop fs [] = []"
| "calculate_loop fs (p # ps) = calculate_action fs p @ calculate_loop fs ps"

definition justCalculate :: "plumed_main \<Rightarrow> event list" where
  "justCalculate pm =
     (if \<not> active pm then [] else calculate_loop (firststep pm) (actionSet pm))"

text \<open>The body of the backward loop for one action.\<close>

definition apply_action :: "action \<Rightarrow> event list" where
  "apply_action p = (if isActive p then [Apply (label p)] else [])"

text \<open>
  The backward loop \<^verbatim>\<open>for(auto pp=actionSet.rbegin(); pp!=actionSet.rend(); ++pp)\<close>:
  the reverse iterator starts at the last action of the set and steps towards the first.
\<close>

fun apply_loop :: "action list \<Rightarrow> event list" where
  "apply_loop [] = []"
| "apply_loop (p # ps) = apply_action p @ apply_loop ps"

definition backwardPropagate :: "plumed_main \<Rightarrow> event list" where
  "backwardPropagate pm =
     (if \<not> active pm then [] else apply_loop (rev (actionSet pm)))"

text \<open>
  The actions whose \<^verbatim>\<open>calculate()\<close> (or \<^verbatim>\<open>calculateNumericalDerivatives()\<close>) ran,
  and the actions whose \<^verbatim>\<open>apply()\<close> ran, each in the order of the calls.
\<close>

fun calculated :: "event list \<Rightarrow> string list" where
  "calculated [] = []"
| "calculated (Calculate l # es) = l # calculated es"
| "calculated (CalculateNumericalDerivatives l # es) = l # calculated es"
| "calculated (e # es) = calculated es"

fun applied :: "event list \<Rightarrow> string list" where
  "applied [] = []"
| "applied (Apply l # es) = l # applied es"
| "applied (e # es) = applied es"

text \<open>\<open>runs_before xs a b\<close>: some call for \<open>a\<close> is made earlier in \<open>xs\<close> than some call for \<open>b\<close>.\<close>

definition runs_before :: "string list \<Rightarrow> string \<Rightarrow> string \<Rightarrow> bool" where
  "runs_before xs a b =
     (\<exists>j \<in> set [0..<length xs]. \<exists>i \<in> set [0..<j]. xs ! i = a \<and> xs ! j = b)"

section \<open>Contour finding: the task list of FIND_CONTOUR\<close>

text \<open>
  \<^verbatim>\<open>FindContour::setupCurrentTaskList\<close> (the file unnamed/part_000 of the sources, lines 136 to 171) reads the grid
  that is its argument.  The grid object itself (\<^verbatim>\<open>GridCoordinatesObject\<close>) is
  not among the sources, so what the function asks of it is a field of the
  record below: the rank of the grid, the bin counts \<^verbatim>\<open>getNbin(false)\<close>,
  \<^verbatim>\<open>isPeriodic(j)\<close>, the number of grid points, the stored value
  \<^verbatim>\<open>get(i)\<close> of a grid point, and the two index conversions
  \<^verbatim>\<open>getIndices\<close> and \<^verbatim>\<open>getIndex\<close>.  (The function also calls
  \<^verbatim>\<open>getNeighbors\<close> and never reads what it returns.)  A \<^verbatim>\<open>double\<close> is a \<^typ>\<open>real\<close>;
  an \<^verbatim>\<open>unsigned\<close> counter is a \<^typ>\<open>nat\<close> (grid sizes stay far below \<open>2^32\<close>).
\<close>

record grid =
  grank :: nat
  gnbin :: "nat list"
  isPeriodic :: "nat \<Rightarrow> bool"
  gnpoints :: nat
  gvalue :: "nat \<Rightarrow> real"
  getIndices :: "nat \<Rightarrow> nat list"
  getIndex :: "nat list \<Rightarrow> nat"
  getGridSpacing :: "real list"
  getGridPointCoordinates :: "nat \<Rightarrow> real list"

text \<open>
  Modelled from the spec: \<^verbatim>\<open>Value::addTaskToCurrentList\<close> is not among the
  sources.  The spec speaks of the \<^emph>\<open>set\<close> of task indices visited in a step, and
  the sources hand task lists around as \<^verbatim>\<open>std::set<AtomNumber>\<close>; the current
  task list is therefore a duplicate-free list, and adding a task that is
  already there changes nothing.
\<close>

definition addTaskToCurrentList :: "nat \<Rightarrow> nat list \<Rightarrow> nat list" where
  "addTaskToCurrentList t ts = (if t \<in> set ts then ts else ts @ [t])"

text \<open>
  The body of the loop over the dimensions \<open>j\<close> of the grid, for grid point
  \<open>i\<close> with \<open>val1 = get(i) - contour\<close>.  The loop works on the index vector
  \<open>ind\<close> in place and carries the flag \<open>edge\<close>; the state is the triple of
  \<open>ind\<close>, \<open>edge\<close> and the current task list.  The first branch is the
  \<^verbatim>\<open>continue\<close> at the edge of a non-periodic dimension.
\<close>

definition search_step ::
  "grid \<Rightarrow> real \<Rightarrow> nat \<Rightarrow> real \<Rightarrow> nat \<Rightarrow> nat list \<times> bool \<times> nat list \<Rightarrow> nat list \<times> bool \<times> nat list" where
  "search_step g c i val1 j st =
     (case st of (ind, edge, ts) \<Rightarrow>
        if \<not> isPeriodic g j \<and> ind ! j + 1 = gnbin g ! j then (ind, edge, ts)
        else
          let (edge1, ind1) =
                (if ind ! j + 1 = gnbin g ! j then (True, ind[j := 0])
                 else (edge, ind[j := ind ! j + 1]));
              val2 = gvalue g (getIndex g ind1) - c;
              ts1 = (if val1 * val2 < 0 then addTaskToCurrentList (grank g * i + j) ts else ts);
              (edge2, ind2) =
                (if isPeriodic g j \<and> edge1 then (False, ind1[j := gnbin g ! j - 1])
                 else (edge1, ind1[j := ind1 ! j - 1]))
          in (ind2, edge2, ts1))"

fun search_dims ::
  "grid \<Rightarrow> real \<Rightarrow> nat \<Rightarrow> real \<Rightarrow> nat list \<Rightarrow> nat list \<times> bool \<times> nat list \<Rightarrow> nat list \<times> bool \<times> nat list" where
  "search_dims g c i val1 [] st = st"
| "search_dims g c i val1 (j # js) st = search_dims g c i val1 js (search_step g c i val1 j st)"

text \<open>The body of the loop over the grid points: \<open>edge\<close> starts as \<^verbatim>\<open>false\<close> for each point.\<close>

definition search_point :: "grid \<Rightarrow> real \<Rightarrow> nat \<Rightarrow> nat list \<Rightarrow> nat list" where
  "search_point g c i ts =
     (let ind = getIndices g i;
          val1 = gvalue g i - c
      in snd (snd (search_dims g c i val1 [0..<grank g] (ind, False, ts))))"

fun search_points :: "grid \<Rightarrow> real \<Rightarrow> nat list \<Rightarrow> nat list \<Rightarrow> nat list" where
  "search_points g c [] ts = ts"
| "search_points g c (i # is) ts = search_points g c is (search_point g c i ts)"

text \<open>
  \<^verbatim>\<open>setupCurrentTaskList\<close> with isovalue \<open>c\<close> (the member \<^verbatim>\<open>contour\<close>), started
  on the current task list \<open>ts\<close> of the first output value; it returns that list
  as the function leaves it.
\<close>

definition setupCurrentTaskList :: "grid \<Rightarrow> real \<Rightarrow> nat list \<Rightarrow> nat list" where
  "setupCurrentTaskList g c ts = search_points g c [0..<gnpoints g] ts"

text \<open>
  \<^verbatim>\<open>FindContour::performTask\<close> for the task \<open>current\<close>.  The grid point is
  \<^verbatim>\<open>std::floor( current / rank )\<close>, a division of unsigned integers, and the
  direction of the search is \<^verbatim>\<open>current % rank\<close>.  \<^verbatim>\<open>findContour\<close> and the root
  finder behind it are not among the sources: the function is a parameter that
  takes the direction and the starting point and gives the point it found,
  whose coordinates \<^verbatim>\<open>performTask\<close> stores as the values of the task.
\<close>

definition search_direction :: "grid \<Rightarrow> nat \<Rightarrow> real list" where
  "search_direction g current =
     (replicate (grank g) 0)
       [current mod grank g := 0.999999999 * getGridSpacing g ! (current mod grank g)]"

definition findcontour_performTask ::
  "grid \<Rightarrow> (real list \<Rightarrow> real list \<Rightarrow> real list) \<Rightarrow> nat \<Rightarrow> real list" where
  "findcontour_performTask g findContour current =
     findContour (search_direction g current)
       (getGridPointCoordinates g (current div grank g))"





section \<open>Secondary structure: the strands cutoff\<close>

text \<open>
  \<^verbatim>\<open>SecondaryStructureRMSD\<close> (secondarystructure/SecondaryStructureRMSD.cpp, lines 80 to 102 and 183 to 192).
  A \<^verbatim>\<open>Vector\<close> is a triple of reals and \<^verbatim>\<open>modulo2\<close> is its squared length.
  The periodic-image distance \<^verbatim>\<open>pbcDistance\<close>, the positions of the atoms and
  \<^verbatim>\<open>getAtomIndex\<close> come from classes that are not among the sources; they are
  fields of the record that stands for the action.
\<close>

type_synonym vec = "real \<times> real \<times> real"

definition modulo2 :: "vec \<Rightarrow> real" where
  "modulo2 v = (case v of (x, y, z) \<Rightarrow> x * x + y * y + z * z)"

record secondary_structure =
  ss_label :: string
  s_cutoff2 :: real
  align_atom_1 :: nat
  align_atom_2 :: nat
  colvar_atoms :: "nat list list"
  getAtomIndex :: "nat \<Rightarrow> nat \<Rightarrow> nat"
  getPosition :: "nat \<Rightarrow> vec"
  pbcDistance :: "vec \<Rightarrow> vec \<Rightarrow> vec"

text \<open>
  The part of the constructor that reads \<^verbatim>\<open>STRANDS_CUTOFF\<close>: it returns
  \<^verbatim>\<open>align_strands\<close> and \<^verbatim>\<open>s_cutoff2\<close>.  \<open>parsed\<close> is the value that
  \<^verbatim>\<open>parse\<close> found for the keyword, if the input gave one; \<^verbatim>\<open>s_cutoff\<close> starts
  as \<open>0\<close>.
\<close>

definition read_strands_cutoff :: "bool \<Rightarrow> real option \<Rightarrow> bool \<times> real" where
  "read_strands_cutoff keyword_exists parsed =
     (if keyword_exists then
        (let s_cutoff = (case parsed of None \<Rightarrow> 0 | Some v \<Rightarrow> v)
         in (True, s_cutoff * s_cutoff))
      else (False, 0))"

text \<open>The squared distance between the two marker atoms of task \<open>i\<close>.\<close>

definition strand_distance2 :: "secondary_structure \<Rightarrow> nat \<Rightarrow> real" where
  "strand_distance2 ss i =
     modulo2 (pbcDistance ss (getPosition ss (getAtomIndex ss i (align_atom_1 ss)))
                             (getPosition ss (getAtomIndex ss i (align_atom_2 ss))))"

text \<open>The loop over \<^verbatim>\<open>tflags\<close> in \<^verbatim>\<open>buildCurrentTaskList\<close>.\<close>

fun flag_strands :: "secondary_structure \<Rightarrow> nat list \<Rightarrow> nat list \<Rightarrow> nat list" where
  "flag_strands ss [] tflags = tflags"
| "flag_strands ss (i # is) tflags =
     flag_strands ss is (if strand_distance2 ss i < s_cutoff2 ss then tflags[i := 1] else tflags)"

text \<open>
  \<^verbatim>\<open>SecondaryStructureRMSD::buildCurrentTaskList\<close>; the state is its three
  reference parameters.
\<close>

definition buildCurrentTaskList ::
  "secondary_structure \<Rightarrow> bool \<times> string list \<times> nat list \<Rightarrow> bool \<times> string list \<times> nat list" where
  "buildCurrentTaskList ss st =
     (case st of (forceAllTasks, actionsThatSelectTasks, tflags) \<Rightarrow>
        if s_cutoff2 ss > 0
        then (forceAllTasks, actionsThatSelectTasks @ [ss_label ss],
              flag_strands ss [0..<length tflags] tflags)
        else (forceAllTasks, actionsThatSelectTasks, tflags))"

text \<open>
  Modelled from the spec: \<^verbatim>\<open>ActionWithValue::runAllTasks\<close>, which calls
  \<^verbatim>\<open>buildCurrentTaskList\<close> and then runs the tasks, is not among the sources.
  The spec (4.2, 4.4, 4.5) says that the executor visits each task index of
  the pre-filtered task list and calls the task computation for it, that a node
  may restrict the set of task indices visited in a step, and that skipped
  tasks contribute zero value and are excluded from the active task list.
  Here the flags start at zero, one flag per task (a task is added for each
  entry of \<^verbatim>\<open>colvar_atoms\<close> by \<^verbatim>\<open>addColvar\<close>); when no action selects tasks, or
  all tasks are forced, every task is active.  \<open>perform\<close> gives the value
  that the task computation (the RMSD) has for a task; \<open>performed\<close> lists the
  tasks for which it was called.
\<close>

record task_run =
  active_tasks :: "nat list"
  performed :: "nat list"
  task_values :: "real list"

definition runAllTasks :: "secondary_structure \<Rightarrow> (nat \<Rightarrow> real) \<Rightarrow> task_run" where
  "runAllTasks ss perform =
     (let n = length (colvar_atoms ss);
          (forceAllTasks, actionsThatSelectTasks, tflags) =
             buildCurrentTaskList ss (False, [], replicate n 0);
          flags = (if forceAllTasks \<or> actionsThatSelectTasks = [] then replicate n 1 else tflags);
          act = filter (\<lambda>i. flags ! i > 0) [0..<n]
      in \<lparr> active_tasks = act, performed = act,
           task_values = map (\<lambda>i. if i \<in> set act then perform i else 0) [0..<n] \<rparr>)"

section \<open>The task record and the box derivatives\<close>

text \<open>
  Modelled from the spec: the classes \<^verbatim>\<open>Vector\<close> and \<^verbatim>\<open>Tensor\<close> are not among
  the sources.  A tensor is a 3 by 3 array of reals, read as \<open>vir a b\<close> for
  \<^verbatim>\<open>vir(a,b)\<close>; \<^verbatim>\<open>Tensor(v, w)\<close> is the outer product of two vectors, the
  \<open>position \<otimes> derivative\<close> of the spec (4.3).
\<close>

type_synonym tensor = "nat \<Rightarrow> nat \<Rightarrow> real"

definition vcomp :: "vec \<Rightarrow> nat \<Rightarrow> real" where
  "vcomp v k = (case v of (x, y, z) \<Rightarrow> if k = 0 then x else if k = 1 then y else z)"

definition vadd :: "vec \<Rightarrow> vec \<Rightarrow> vec" where
  "vadd v w = (case v of (x, y, z) \<Rightarrow> case w of (x', y', z') \<Rightarrow> (x + x', y + y', z + z'))"

definition outer :: "vec \<Rightarrow> vec \<Rightarrow> tensor" where
  "outer v w = (\<lambda>a b. vcomp v a * vcomp w b)"

definition tensor_zero :: tensor where
  "tensor_zero = (\<lambda>a b. 0)"

definition tensor_sub :: "tensor \<Rightarrow> tensor \<Rightarrow> tensor" where
  "tensor_sub s t = (\<lambda>a b. s a b - t a b)"

text \<open>
  Modelled from the spec: the class \<^verbatim>\<open>MultiValue\<close> is not among the sources.
  The spec (3) describes the task record as values indexed by stream position,
  a derivative store that maps a component and a derivative index to a double,
  and a list of active indices for each component; contributions to the same
  component and index accumulate (add), never overwrite.  \<^verbatim>\<open>updateIndex\<close>
  appends an index to the active list of a component: it does no check for
  duplicates, which is why its callers in the sources make one.
\<close>

record multivalue =
  mv_values :: "nat \<Rightarrow> real"
  mv_derivatives :: "nat \<Rightarrow> nat \<Rightarrow> real"
  mv_active :: "nat \<Rightarrow> nat list"
  mv_task_index :: nat

definition addDerivative :: "nat \<Rightarrow> nat \<Rightarrow> real \<Rightarrow> multivalue \<Rightarrow> multivalue" where
  "addDerivative ival jder der m =
     m\<lparr> mv_derivatives := (mv_derivatives m)
          (ival := (mv_derivatives m ival)(jder := mv_derivatives m ival jder + der)) \<rparr>"

definition getDerivative :: "multivalue \<Rightarrow> nat \<Rightarrow> nat \<Rightarrow> real" where
  "getDerivative m ival jder = mv_derivatives m ival jder"

definition updateIndex :: "nat \<Rightarrow> nat \<Rightarrow> multivalue \<Rightarrow> multivalue" where
  "updateIndex ival jder m = m\<lparr> mv_active := (mv_active m)(ival := mv_active m ival @ [jder]) \<rparr>"



text \<open>
  \<^verbatim>\<open>MultiColvarBase\<close> (multicolvar/MultiColvarBase.cpp, lines 365 to 417).  \<open>ablocks mc ! i ! t\<close> is
  the atom in position \<open>i\<close> of task \<open>t\<close>; \<open>mc_stream\<close> lists the stream
  positions of the output components; \<open>compute\<close> is the virtual function that a
  concrete collective variable supplies, and the positions and the
  periodic-image distance come from classes that are not among the sources.
\<close>

record multicolvar =
  mc_doNotCalculateDerivatives :: bool
  mc_getNumberOfAtoms :: nat
  mc_getNumberOfDerivatives :: nat
  ablocks :: "nat list list"
  usepbc :: bool
  mc_stream :: "nat list"
  mc_getPosition :: "nat \<Rightarrow> vec"
  mc_pbcDistance :: "vec \<Rightarrow> vec \<Rightarrow> vec"
  compute :: "vec list \<Rightarrow> multivalue \<Rightarrow> multivalue"

text \<open>
  The test for a duplicated atom that both loops of the source make: position
  \<open>i\<close> is new when no earlier position of the task holds the same atom.
\<close>

definition newi :: "nat list list \<Rightarrow> nat \<Rightarrow> nat \<Rightarrow> bool" where
  "newi ab t i = (\<not> list_ex (\<lambda>j. ab ! j ! t = ab ! i ! t) [0..<i])"

text \<open>
  The positions that \<^verbatim>\<open>performTask\<close> hands to \<open>compute\<close>: the positions of the
  atoms of the task, made whole along the chain when periodic boundary
  conditions are used.  (With no atom positions at all the source reads past
  the end of the vector; that case has no atoms to talk about and gives the
  empty list here.)
\<close>

fun make_whole :: "(vec \<Rightarrow> vec \<Rightarrow> vec) \<Rightarrow> vec \<Rightarrow> vec list \<Rightarrow> vec list" where
  "make_whole pbcd first [] = []"
| "make_whole pbcd first (second # rest) =
     (let s = vadd first (pbcd first second) in s # make_whole pbcd s rest)"

definition task_positions :: "multicolvar \<Rightarrow> nat \<Rightarrow> vec list" where
  "task_positions mc task_index =
     (let fpositions = map (\<lambda>i. mc_getPosition mc (ablocks mc ! i ! task_index))
                           [0..<length (ablocks mc)]
      in if usepbc mc then
           (case fpositions of [] \<Rightarrow> []
            | p # ps \<Rightarrow> p # make_whole (mc_pbcDistance mc) p ps)
         else fpositions)"

text \<open>
  The three loops that update the active indices, and \<^verbatim>\<open>performTask\<close>.
\<close>

fun update_components :: "nat \<Rightarrow> nat list \<Rightarrow> multivalue \<Rightarrow> multivalue" where
  "update_components base [] m = m"
| "update_components base (p # ps) m =
     update_components base ps
       (updateIndex p (base + 2) (updateIndex p (base + 1) (updateIndex p base m)))"

fun update_atoms :: "multicolvar \<Rightarrow> nat \<Rightarrow> nat list \<Rightarrow> multivalue \<Rightarrow> multivalue" where
  "update_atoms mc t [] m = m"
| "update_atoms mc t (i # is) m =
     update_atoms mc t is
       (if newi (ablocks mc) t i
        then update_components (3 * (ablocks mc ! i ! t)) (mc_stream mc) m
        else m)"

fun update_box :: "nat \<Rightarrow> nat list \<Rightarrow> multivalue \<Rightarrow> multivalue" where
  "update_box nvir [] m = m"
| "update_box nvir (p # ps) m =
     update_box nvir ps (fold (\<lambda>i. updateIndex p (nvir + i)) [0..<9] m)"

definition performTask :: "multicolvar \<Rightarrow> nat \<Rightarrow> multivalue \<Rightarrow> multivalue" where
  "performTask mc task_index myvals =
     (let m1 = compute mc (task_positions mc task_index) myvals
      in if mc_doNotCalculateDerivatives mc \<or> mc_getNumberOfDerivatives mc = mc_getNumberOfAtoms mc
         then m1
         else update_box (3 * mc_getNumberOfAtoms mc) (mc_stream mc)
                (update_atoms mc task_index [0..<length (ablocks mc)] m1))"

text \<open>
  Modelled from the spec: \<^verbatim>\<open>MultiColvarBase::addBoxDerivatives\<close> is declared in a
  header that is not among the sources.  By the derivative index space of the
  spec (3), the nine entries of the box derivative go to the indices
  \<open>3 * Natoms\<close> to \<open>3 * Natoms + 8\<close>, row by row, as in
  \<^verbatim>\<open>AdjacencyMatrixBase::addBoxDerivatives\<close>.
\<close>

definition multicolvar_addBoxDerivatives ::
  "multicolvar \<Rightarrow> nat \<Rightarrow> tensor \<Rightarrow> multivalue \<Rightarrow> multivalue" where
  "multicolvar_addBoxDerivatives mc ival vir myvals =
     (if mc_doNotCalculateDerivatives mc then myvals
      else fold (\<lambda>k. addDerivative ival (3 * mc_getNumberOfAtoms mc + k) (vir (k div 3) (k mod 3)))
             [0..<9] myvals)"

text \<open>
  \<^verbatim>\<open>MultiColvarBase::setBoxDerivativesNoPbc\<close>: the loop that builds the virial,
  and the function.
\<close>

fun virial_loop ::
  "multicolvar \<Rightarrow> nat \<Rightarrow> vec list \<Rightarrow> multivalue \<Rightarrow> nat \<Rightarrow> nat list \<Rightarrow> tensor \<Rightarrow> tensor" where
  "virial_loop mc ival fpositions myvals itask [] virial = virial"
| "virial_loop mc ival fpositions myvals itask (i # is) virial =
     virial_loop mc ival fpositions myvals itask is
       (if newi (ablocks mc) itask i
        then tensor_sub virial
               (outer (fpositions ! i)
                  (getDerivative myvals ival (3 * (ablocks mc ! i ! itask) + 0),
                   getDerivative myvals ival (3 * (ablocks mc ! i ! itask) + 1),
                   getDerivative myvals ival (3 * (ablocks mc ! i ! itask) + 2)))
        else virial)"

definition setBoxDerivativesNoPbc ::
  "multicolvar \<Rightarrow> nat \<Rightarrow> vec list \<Rightarrow> multivalue \<Rightarrow> multivalue" where
  "setBoxDerivativesNoPbc mc ival fpositions myvals =
     (if mc_doNotCalculateDerivatives mc then myvals
      else
        let itask = mv_task_index myvals;
            virial = virial_loop mc ival fpositions myvals itask [0..<length (ablocks mc)] tensor_zero
        in multicolvar_addBoxDerivatives mc ival virial myvals)"

text \<open>
  The vocabulary of the claims: the atom in a position of a task, the
  positions of a task that hold an atom for the first time, the derivative
  with respect to an atom, the sum of outer products over those first
  positions, and what a tensor contributes to derivative index \<open>k\<close> when its
  nine entries sit at \<open>nbase\<close> to \<open>nbase + 8\<close>.
\<close>

definition first_positions :: "multicolvar \<Rightarrow> nat \<Rightarrow> nat list" where
  "first_positions mc t = filter (newi (ablocks mc) t) [0..<length (ablocks mc)]"

definition atom_of :: "multicolvar \<Rightarrow> nat \<Rightarrow> nat \<Rightarrow> nat" where
  "atom_of mc t i = ablocks mc ! i ! t"

definition atom_derivative :: "multivalue \<Rightarrow> nat \<Rightarrow> nat \<Rightarrow> vec" where
  "atom_derivative m ival a =
     (getDerivative m ival (3 * a), getDerivative m ival (3 * a + 1), getDerivative m ival (3 * a + 2))"

definition virial_sum :: "multicolvar \<Rightarrow> nat \<Rightarrow> vec list \<Rightarrow> multivalue \<Rightarrow> tensor" where
  "virial_sum mc ival fpositions m =
     (\<lambda>a b. \<Sum>i \<leftarrow> first_positions mc (mv_task_index m).
                outer (fpositions ! i) (atom_derivative m ival (atom_of mc (mv_task_index m) i)) a b)"

definition box_contribution :: "nat \<Rightarrow> tensor \<Rightarrow> nat \<Rightarrow> real" where
  "box_contribution nbase vir k =
     (if nbase \<le> k \<and> k < nbase + 9 then vir ((k - nbase) div 3) ((k - nbase) mod 3) else 0)"

section \<open>Requesting arguments and setting up chains\<close>

text \<open>
  \<^verbatim>\<open>ActionWithArguments::requestArguments\<close> and \<^verbatim>\<open>ActionWithArguments::setupActionInChain\<close>
  (the file core/PbcAction.cpp of the sources, lines 2688 to 2944), and the part of the constructor of
  \<^verbatim>\<open>HistogramBase\<close> (gridtools/HistogramBase.cpp, lines 111 to 129) that adds the histogram to a
  chain.  Every \<^verbatim>\<open>plumed_assert\<close>, \<^verbatim>\<open>plumed_massert\<close> and \<^verbatim>\<open>error\<close> that these
  functions can reach, and every dereference of an action pointer that may be
  null, is a failure of the model.
\<close>

datatype failure =
    ArgumentsLocked
  | AverageIsReweight
  | CannotFindAction string
  | NullAction
  | TaskCountAssertion
  | NotDoneOverStream
  | NotActionWithValue
  | CouldNotAddAction string
  | MoreThanOneArgument
  | NoDerivatives

text \<open>
  A \<^verbatim>\<open>Value\<close> and an action are objects that several pointers share, so both
  live in a store: a value is named by its address in the heap of values, an
  action by its address in the store of actions.  Of a value the functions read
  its name, the action that owns it (which may be null), its rank, whether it
  is constant, the flag \<^verbatim>\<open>alwaysstore\<close>, the labels in \<^verbatim>\<open>store_data_for\<close>, and the
  number of tasks; of an action they read its label and name, what
  \<^verbatim>\<open>dynamic_cast\<close> says about its class, its output values, its dependencies,
  the action that calculates it, and two virtual functions.
\<close>

record val =
  getName :: string
  getPntrToAction :: "nat option"
  getRank :: nat
  isConstant :: bool
  alwaysstore :: bool
  store_data_for :: "string list"
  storedata :: bool
  ntasks :: nat
  getNumberOfValues :: nat

record act =
  getLabel :: string
  actName :: string
  isActionSetup :: bool
  isAverageBase :: bool
  isReweightBase :: bool
  outputs :: "nat list"
  getDependencies :: "nat list"
  getActionThatCalculates :: nat
  canChainFromThisAction :: bool
  getNumberOfDerivatives :: nat

text \<open>
  What the functions ask of \<^verbatim>\<open>PlumedMain\<close> and of classes that are not among the
  sources: the action set in its order, \<^verbatim>\<open>selectWithLabel<ActionWithValue*>\<close>,
  and \<^verbatim>\<open>Action::checkForDependency\<close>.
\<close>

record plumed =
  actions :: "nat \<Rightarrow> act"
  getActionSet :: "nat list"
  selectWithLabel :: "string \<Rightarrow> nat option"
  checkForDependency :: "nat \<Rightarrow> nat \<Rightarrow> bool"

text \<open>
  The action that requests the arguments (\<^verbatim>\<open>this\<close>): its label, the lock, whether it
  is an \<^verbatim>\<open>ActionWithValue\<close>, whether its keywords know \<^verbatim>\<open>SERIAL\<close>, its list of
  arguments and the flag \<^verbatim>\<open>done_over_stream\<close>.  The dependencies of the action and
  the pointers \<^verbatim>\<open>theAverageInArguments\<close> and \<^verbatim>\<open>theReweightBase\<close>, which the function
  also updates, decide nothing here and are left out.
\<close>

record arg_action =
  thisLabel :: string
  lockRequestArguments :: bool
  thisAsActionWithValue :: bool
  serialKeyword :: bool
  arguments :: "nat list"
  done_over_stream :: bool

type_synonym heap = "nat \<Rightarrow> val"

text \<open>
  Modelled from the spec: \<^verbatim>\<open>Value::buildDataStore\<close> is not among the sources.
  By the spec (3), a value is either streamed or stored, and a consumer that
  cannot stream forces the producer's output into stored mode; the sources
  read back \<^verbatim>\<open>store_data_for\<close> as the labels of the actions for which the value
  is stored.  So the call marks the value as stored and records the label of
  the action that asked, once.
\<close>

definition buildDataStore :: "string \<Rightarrow> val \<Rightarrow> val" where
  "buildDataStore lab v =
     v\<lparr> storedata := True,
        store_data_for := (if lab \<in> set (store_data_for v) then store_data_for v
                           else store_data_for v @ [lab]) \<rparr>"

definition store_arg :: "string \<Rightarrow> nat \<Rightarrow> heap \<Rightarrow> heap" where
  "store_arg lab a vals = vals(a := buildDataStore lab (vals a))"
















text \<open>
  \<^verbatim>\<open>setupActionInChain\<close>.  Its first loop collects the labels of the actions of
  the arguments and the list \<^verbatim>\<open>f_actions\<close> of the actions to be chained.
\<close>

definition storing_for_this :: "string \<Rightarrow> val \<Rightarrow> bool" where
  "storing_for_this lab v = list_ex (\<lambda>user. getRank v = 0 \<or> user = lab) (store_data_for v)"

fun collect_chain ::
  "plumed \<Rightarrow> string \<Rightarrow> heap \<Rightarrow> nat list \<Rightarrow> string list \<times> nat list \<Rightarrow> failure + string list \<times> nat list" where
  "collect_chain env lab vals [] st = Inr st"
| "collect_chain env lab vals (a # as) (alabels, f_actions) =
     (case getPntrToAction (vals a) of
        None \<Rightarrow> Inl NullAction
      | Some p \<Rightarrow>
          let mylab = getLabel (actions env p);
              alabels' = (if mylab \<in> set alabels then alabels else alabels @ [mylab]);
              myact = getActionThatCalculates (actions env p);
              f_actions' =
                (if \<not> isActionSetup (actions env myact) \<and> \<not> isConstant (vals a) then
                   (if myact \<in> set f_actions then f_actions
                    else if f_actions = [] \<or> \<not> storing_for_this lab (vals a)
                      then f_actions @ [myact]
                    else f_actions)
                 else f_actions)
          in collect_chain env lab vals as (alabels', f_actions'))"

text \<open>
  \<^verbatim>\<open>ActionWithValue::addActionToChain\<close> is not among the sources.  It is a
  parameter: called on the state \<open>c\<close> of the chains for the action \<open>p\<close> with the
  labels \<open>ls\<close> and the action \<open>x\<close> to add, it answers whether \<open>x\<close> was added
  and gives the new state.
\<close>

type_synonym 'c chain_adder = "'c \<Rightarrow> nat \<Rightarrow> string list \<Rightarrow> nat \<Rightarrow> bool \<times> 'c"

text \<open>
  The loop that puts the other upstream actions into the chain of the first
  (the answers are ignored), and the loop that tries to add this action to the
  chain of one of its arguments.
\<close>

fun chain_upstream :: "'c chain_adder \<Rightarrow> nat \<Rightarrow> string list \<Rightarrow> nat list \<Rightarrow> 'c \<Rightarrow> 'c" where
  "chain_upstream addActionToChain f0 ls [] c = c"
| "chain_upstream addActionToChain f0 ls (f # fs) c =
     chain_upstream addActionToChain f0 ls fs (snd (addActionToChain c f0 ls f))"

fun add_to_chain ::
  "plumed \<Rightarrow> heap \<Rightarrow> 'c chain_adder \<Rightarrow> string list \<Rightarrow> nat \<Rightarrow> nat list \<Rightarrow> bool \<times> bool \<times> 'c
     \<Rightarrow> failure + bool \<times> bool \<times> 'c" where
  "add_to_chain env vals addActionToChain alabels this [] st = Inr st"
| "add_to_chain env vals addActionToChain alabels this (a # as) (added, all_setup, c) =
     (case getPntrToAction (vals a) of
        None \<Rightarrow> Inl NullAction
      | Some p \<Rightarrow>
          if canChainFromThisAction (actions env p) \<and> getRank (vals a) > 0 then
            (let (ok, c') = addActionToChain c p alabels this
             in if ok then Inr (True, all_setup, c')
                else add_to_chain env vals addActionToChain alabels this as (added, False, c'))
          else add_to_chain env vals addActionToChain alabels this as
                 (added, (if canChainFromThisAction (actions env p) then False else all_setup), c))"

text \<open>
  The count of the derivatives at the end of \<^verbatim>\<open>setupActionInChain\<close>.
  \<^verbatim>\<open>distinct_arguments\<close>, which \<^verbatim>\<open>requestArguments\<close> fills, is a parameter: a
  list of pairs of an action and a kind.
\<close>

fun argument_values ::
  "plumed \<Rightarrow> heap \<Rightarrow> string \<Rightarrow> nat \<Rightarrow> nat list \<Rightarrow> nat \<Rightarrow> failure + nat" where
  "argument_values env vals dlabel kind [] nd = Inr nd"
| "argument_values env vals dlabel kind (a # as) nd =
     (case getPntrToAction (vals a) of
        None \<Rightarrow> Inl NullAction
      | Some p \<Rightarrow>
          if getLabel (actions env p) = dlabel then
            (if nd > 0 then Inl MoreThanOneArgument
             else argument_values env vals dlabel kind as
                    (if kind = 2 then 1 else getNumberOfValues (vals a)))
          else argument_values env vals dlabel kind as nd)"

fun count_derivatives ::
  "plumed \<Rightarrow> heap \<Rightarrow> nat list \<Rightarrow> (nat \<times> nat) list \<Rightarrow> nat \<Rightarrow> failure + nat" where
  "count_derivatives env vals args [] n = Inr n"
| "count_derivatives env vals args ((d, kind) # ds) n =
     (if kind = 0 then
        count_derivatives env vals args ds (n + getNumberOfDerivatives (actions env d))
      else if length (outputs (actions env d)) = 1 then
        count_derivatives env vals args ds
          (n + getNumberOfValues (vals (outputs (actions env d) ! 0)))
      else
        (case argument_values env vals (getLabel (actions env d)) kind args 0 of
           Inl e \<Rightarrow> Inl e
         | Inr nd \<Rightarrow>
             if nd > 0 then count_derivatives env vals args ds (n + nd)
             else Inl NoDerivatives))"

definition setupActionInChain ::
  "plumed \<Rightarrow> arg_action \<Rightarrow> nat \<Rightarrow> heap \<Rightarrow> (nat \<times> nat) list \<Rightarrow> 'c chain_adder \<Rightarrow> 'c \<Rightarrow> nat
     \<Rightarrow> failure + nat \<times> 'c" where
  "setupActionInChain env self this vals distinct_arguments addActionToChain c argstart =
     (if \<not> done_over_stream self then Inl NotDoneOverStream
      else
        case collect_chain env (thisLabel self) vals (drop argstart (arguments self)) ([], []) of
          Inl e \<Rightarrow> Inl e
        | Inr (alabels, f_actions) \<Rightarrow>
            let c1 = (if f_actions \<noteq> []
                      then chain_upstream addActionToChain (f_actions ! 0)
                             [getLabel (actions env (f_actions ! 0))] (tl f_actions) c
                      else c)
            in if \<not> thisAsActionWithValue self then Inl NotActionWithValue
               else
                 case add_to_chain env vals addActionToChain alabels this
                        (drop argstart (arguments self)) (False, True, c1) of
                   Inl e \<Rightarrow> Inl e
                 | Inr (added, all_setup, c2) \<Rightarrow>
                     if \<not> all_setup \<and> \<not> added then Inl (CouldNotAddAction (thisLabel self))
                     else
                       (case count_derivatives env vals (arguments self) distinct_arguments 0 of
                          Inl e \<Rightarrow> Inl e
                        | Inr nderivatives \<Rightarrow> Inr (nderivatives, c2)))"

text \<open>
  The constructor of \<^verbatim>\<open>HistogramBase\<close>, in the branch where
  \<^verbatim>\<open>distinct_arguments\<close> is not empty: it collects the labels of the actions of
  its arguments, tries to add itself to the chain of the first argument of
  rank above zero that accepts it, and asserts that it was added.
\<close>

fun argument_labels :: "plumed \<Rightarrow> heap \<Rightarrow> nat list \<Rightarrow> string list \<Rightarrow> failure + string list" where
  "argument_labels env vals [] alabels = Inr alabels"
| "argument_labels env vals (a # as) alabels =
     (case getPntrToAction (vals a) of
        None \<Rightarrow> Inl NullAction
      | Some p \<Rightarrow>
          argument_labels env vals as
            (if getLabel (actions env p) \<in> set alabels then alabels
             else alabels @ [getLabel (actions env p)]))"

fun histogram_add ::
  "heap \<Rightarrow> 'c chain_adder \<Rightarrow> string list \<Rightarrow> nat \<Rightarrow> nat list \<Rightarrow> 'c \<Rightarrow> failure + bool \<times> 'c" where
  "histogram_add vals addActionToChain alabels this [] c = Inr (False, c)"
| "histogram_add vals addActionToChain alabels this (a # as) c =
     (if getRank (vals a) > 0 then
        (case getPntrToAction (vals a) of
           None \<Rightarrow> Inl NullAction
         | Some p \<Rightarrow>
             let (ok, c') = addActionToChain c p alabels this
             in if ok then Inr (True, c')
                else histogram_add vals addActionToChain alabels this as c')
      else histogram_add vals addActionToChain alabels this as c)"

definition histogram_chain ::
  "plumed \<Rightarrow> arg_action \<Rightarrow> nat \<Rightarrow> heap \<Rightarrow> 'c chain_adder \<Rightarrow> 'c \<Rightarrow> failure + 'c" where
  "histogram_chain env self this vals addActionToChain c =
     (case argument_labels env vals (arguments self) [] of
        Inl e \<Rightarrow> Inl e
      | Inr alabels \<Rightarrow>
          (case histogram_add vals addActionToChain alabels this (arguments self) c of
             Inl e \<Rightarrow> Inl e
           | Inr (added, c') \<Rightarrow>
               if added then Inr c' else Inl (CouldNotAddAction (thisLabel self))))"



definition chainable :: "plumed \<Rightarrow> heap \<Rightarrow> nat \<Rightarrow> bool" where
  "chainable env vals a =
     (case getPntrToAction (vals a) of None \<Rightarrow> False
      | Some p \<Rightarrow> canChainFromThisAction (actions env p))"

definition accepts ::
  "plumed \<Rightarrow> heap \<Rightarrow> 'c chain_adder \<Rightarrow> 'c \<Rightarrow> string list \<Rightarrow> nat \<Rightarrow> nat \<Rightarrow> bool" where
  "accepts env vals addActionToChain c alabels this a =
     (case getPntrToAction (vals a) of None \<Rightarrow> False
      | Some p \<Rightarrow> canChainFromThisAction (actions env p) \<and> getRank (vals a) > 0 \<and>
                  fst (addActionToChain c p alabels this))"

definition histogram_accepts ::
  "heap \<Rightarrow> 'c chain_adder \<Rightarrow> 'c \<Rightarrow> string list \<Rightarrow> nat \<Rightarrow> nat \<Rightarrow> bool" where
  "histogram_accepts vals addActionToChain c alabels this a =
     (case getPntrToAction (vals a) of None \<Rightarrow> False
      | Some p \<Rightarrow> getRank (vals a) > 0 \<and> fst (addActionToChain c p alabels this))"



text \<open>
  The two things that the first loop of \<^verbatim>\<open>setupActionInChain\<close> produces, the
  state of the chains when the action tries to add itself, and the condition
  that a refused request leaves the chains as they were.
\<close>

definition upstream_actions :: "plumed \<Rightarrow> string \<Rightarrow> heap \<Rightarrow> nat list \<Rightarrow> nat list" where
  "upstream_actions env lab vals args =
     (case collect_chain env lab vals args ([], []) of Inl e \<Rightarrow> [] | Inr (alabels, f_actions) \<Rightarrow> f_actions)"

definition requested_labels :: "plumed \<Rightarrow> heap \<Rightarrow> nat list \<Rightarrow> string list" where
  "requested_labels env vals args =
     (case argument_labels env vals args [] of Inl e \<Rightarrow> [] | Inr alabels \<Rightarrow> alabels)"

definition chain_with_upstream ::
  "plumed \<Rightarrow> string \<Rightarrow> heap \<Rightarrow> 'c chain_adder \<Rightarrow> 'c \<Rightarrow> nat list \<Rightarrow> 'c" where
  "chain_with_upstream env lab vals addActionToChain c args =
     (let f_actions = upstream_actions env lab vals args
      in if f_actions \<noteq> []
         then chain_upstream addActionToChain (f_actions ! 0)
                [getLabel (actions env (f_actions ! 0))] (tl f_actions) c
         else c)"

definition refusal_keeps_chain :: "'c chain_adder \<Rightarrow> bool" where
  "refusal_keeps_chain addActionToChain =
     (\<forall>c p ls x. \<not> fst (addActionToChain c p ls x) \<longrightarrow> snd (addActionToChain c p ls x) = c)"

section \<open>Concrete inputs\<close>


definition example_plumed :: plumed_main where
  "example_plumed = \<lparr> active = True,
     actionSet = [
       \<lparr> label = ''d1'', isActive = True, withValue = True, atomistic = True,
         checkNumericalDerivatives = False \<rparr>,
       \<lparr> label = ''off'', isActive = False, withValue = True, atomistic = False,
         checkNumericalDerivatives = False \<rparr>,
       \<lparr> label = ''r1'', isActive = True, withValue = True, atomistic = False,
         checkNumericalDerivatives = True \<rparr>],
     firststep = False \<rparr>"

text \<open>
  Two strand pairs: the marker atoms of task \<open>0\<close> are at distance \<open>1\<close>, those of
  task \<open>1\<close> at distance \<open>5\<close>; the cutoff is \<open>2\<close>.
\<close>

definition example_strands :: secondary_structure where
  "example_strands = \<lparr> ss_label = ''anti'', s_cutoff2 = 4, align_atom_1 = 0, align_atom_2 = 1,
     colvar_atoms = [ [0, 1], [2, 3] ],
     getAtomIndex = (\<lambda>i a. [ [0, 1], [2, 3] ] ! i ! a),
     getPosition = (\<lambda>k. if k = 1 then (1, 0, 0) else if k = 3 then (5, 0, 0) else (0, 0, 0)),
     pbcDistance = (\<lambda>v w. case v of (x, y, z) \<Rightarrow> case w of (x', y', z') \<Rightarrow> (x' - x, y' - y, z' - z)) \<rparr>"




definition example_record :: multivalue where
  "example_record = \<lparr> mv_values = (\<lambda>p. 0),
     mv_derivatives = (\<lambda>c k. if c = 0 \<and> (k = 0 \<or> k = 4) then 1 else 0),
     mv_active = (\<lambda>c. []), mv_task_index = 0 \<rparr>"

text \<open>
  A collective variable with one task over three positions, the first two of
  which hold the same atom \<open>0\<close>; the third holds atom \<open>1\<close>.
\<close>

definition example_multicolvar :: multicolvar where
  "example_multicolvar = \<lparr> mc_doNotCalculateDerivatives = False, mc_getNumberOfAtoms = 2,
     mc_getNumberOfDerivatives = 15, ablocks = [ [0], [0], [1] ], usepbc = False, mc_stream = [0],
     mc_getPosition = (\<lambda>a. if a = 0 then (1, 0, 0) else (0, 2, 0)),
     mc_pbcDistance = (\<lambda>v w. w), compute = (\<lambda>pos m. m) \<rparr>"

definition example_multicolvar_noderiv :: multicolvar where
  "example_multicolvar_noderiv = \<lparr> mc_doNotCalculateDerivatives = True, mc_getNumberOfAtoms = 2,
     mc_getNumberOfDerivatives = 15, ablocks = [ [0], [0], [1] ], usepbc = False, mc_stream = [0],
     mc_getPosition = (\<lambda>a. if a = 0 then (1, 0, 0) else (0, 2, 0)),
     mc_pbcDistance = (\<lambda>v w. w), compute = (\<lambda>pos m. m) \<rparr>"

definition example_positions :: "vec list" where
  "example_positions = [(1, 0, 0), (1, 0, 0), (0, 2, 0)]"

text \<open>
  Three actions: \<open>a\<close> with the two output values \<open>a.x\<close> and \<open>a.y\<close>, \<open>b\<close>
  with one output value, and the setup action \<open>c\<close> with a constant output.  The
  numbers of tasks of \<open>a.y\<close> and of \<open>b\<close> are parameters of the heap; \<open>a.x\<close>
  has three tasks.  The function \<open>f\<close> requests arguments; \<open>refuse\<close> is a chain
  that refuses every action.
\<close>

definition example_actions :: "nat \<Rightarrow> act" where
  "example_actions n =
     (if n = 0 then
        \<lparr> getLabel = ''a'', actName = ''DISTANCE'', isActionSetup = False, isAverageBase = False,
          isReweightBase = False, outputs = [0, 1], getDependencies = [],
          getActionThatCalculates = 0, canChainFromThisAction = True, getNumberOfDerivatives = 15 \<rparr>
      else if n = 1 then
        \<lparr> getLabel = ''b'', actName = ''DISTANCE'', isActionSetup = False, isAverageBase = False,
          isReweightBase = False, outputs = [2], getDependencies = [],
          getActionThatCalculates = 1, canChainFromThisAction = True, getNumberOfDerivatives = 15 \<rparr>
      else
        \<lparr> getLabel = ''c'', actName = ''CONSTANT'', isActionSetup = True, isAverageBase = False,
          isReweightBase = False, outputs = [3], getDependencies = [],
          getActionThatCalculates = 2, canChainFromThisAction = False, getNumberOfDerivatives = 0 \<rparr>)"

definition example_env :: plumed where
  "example_env = \<lparr> actions = example_actions, getActionSet = [0, 1, 2],
     selectWithLabel = (\<lambda>l. if l = ''a'' then Some 0 else if l = ''b'' then Some 1
                             else if l = ''c'' then Some 2 else None),
     checkForDependency = (\<lambda>f g. False) \<rparr>"

definition example_value :: "string \<Rightarrow> nat \<Rightarrow> bool \<Rightarrow> nat \<Rightarrow> val" where
  "example_value name producer const nt =
     \<lparr> getName = name, getPntrToAction = Some producer, getRank = 1, isConstant = const,
       alwaysstore = False, store_data_for = [], storedata = False, ntasks = nt,
       getNumberOfValues = nt \<rparr>"

definition example_heap :: "nat \<Rightarrow> nat \<Rightarrow> heap" where
  "example_heap nt1 nt2 a =
     (if a = 0 then example_value ''a.x'' 0 False 3
      else if a = 1 then example_value ''a.y'' 0 False nt1
      else if a = 2 then example_value ''b'' 1 False nt2
      else example_value ''c'' 2 True 3)"

definition example_function :: "nat list \<Rightarrow> bool \<Rightarrow> arg_action" where
  "example_function args dos =
     \<lparr> thisLabel = ''f'', lockRequestArguments = False, thisAsActionWithValue = True,
       serialKeyword = False, arguments = args, done_over_stream = dos \<rparr>"

definition refuse :: "unit chain_adder" where
  "refuse c p ls x = (False, c)"

section \<open>Properties of the forward and backward loops\<close>

lemma calculated_append: "calculated (es @ fs) = calculated es @ calculated fs"
  by (induction es rule: calculated.induct) simp_all

lemma applied_append: "applied (es @ fs) = applied es @ applied fs"
  by (induction es rule: applied.induct) simp_all

lemma calculated_calculate_action:
  "calculated (calculate_action fs p) = (if isActive p then [label p] else [])"
  by (simp add: calculate_action_def calculated_append)

lemma calculated_calculate_loop:
  "calculated (calculate_loop fs ps) = map label (filter isActive ps)"
  by (induction ps) (simp_all add: calculated_append calculated_calculate_action)

lemma applied_apply_loop:
  "applied (apply_loop ps) = map label (filter isActive ps)"
  by (induction ps) (simp_all add: applied_append apply_action_def)

lemma apply_order_is_reverse:
  "applied (backwardPropagate pm) = rev (calculated (justCalculate pm))"
  by (simp add: backwardPropagate_def justCalculate_def calculated_calculate_loop
      applied_apply_loop rev_map rev_filter)

lemma runs_before_rev:
  assumes "runs_before xs a b"
  shows "runs_before (rev xs) b a"
proof -
  from assms obtain i j where ij: "i < j" "j < length xs" "xs ! i = a" "xs ! j = b"
    by (auto simp: runs_before_def)
  let ?n = "length xs"
  have "?n - 1 - j < ?n - 1 - i" "?n - 1 - i < length (rev xs)"
    using ij by auto
  moreover have "rev xs ! (?n - 1 - j) = b" "rev xs ! (?n - 1 - i) = a"
    using ij by (simp_all add: rev_nth)
  ultimately show ?thesis
    unfolding runs_before_def by (metis atLeast0LessThan lessThan_iff set_upt)
qed

text \<open>
  Claim C2.  In one calculation step the backward pass visits the active
  actions in exactly the reverse of the order of the forward pass: the list
  of actions whose \<^verbatim>\<open>apply()\<close> runs is the reversed list of actions whose
  \<^verbatim>\<open>calculate()\<close> runs, and whenever the calculation of \<open>a\<close> comes before
  the calculation of \<open>b\<close> in the forward loop, the \<^verbatim>\<open>apply()\<close> of \<open>b\<close> comes
  before the \<^verbatim>\<open>apply()\<close> of \<open>a\<close> in the backward loop.
\<close>

theorem backward_pass_reverses_forward_pass:
  "applied (backwardPropagate pm) = rev (calculated (justCalculate pm)) \<and>
   (runs_before (calculated (justCalculate pm)) a b \<longrightarrow>
    runs_before (applied (backwardPropagate pm)) b a)"
  using apply_order_is_reverse [of pm] runs_before_rev by simp

theorem backward_pass_reverses_forward_pass_witness:
  "runs_before (calculated (justCalculate example_plumed)) ''d1'' ''r1'' \<and>
   runs_before (applied (backwardPropagate example_plumed)) ''r1'' ''d1''"
proof -
  have h: "runs_before (calculated (justCalculate example_plumed)) ''d1'' ''r1''"
    by (simp add: runs_before_def example_plumed_def justCalculate_def calculate_action_def)
  with backward_pass_reverses_forward_pass [of example_plumed "''d1''" "''r1''"]
  show ?thesis by blast
qed

section \<open>Properties of the contour task list\<close>

lemma set_addTaskToCurrentList: "set (addTaskToCurrentList t ts) = insert t (set ts)"
  by (auto simp: addTaskToCurrentList_def)








lemma search_step_shape:
  "\<exists>ind' edge' b. \<forall>ts. search_step g c i val1 j (ind, edge, ts) =
      (ind', edge', if b then addTaskToCurrentList (grank g * i + j) ts else ts)"
proof -
  let ?A = "ind ! j + 1 = gnbin g ! j"
  let ?P = "isPeriodic g j"
  consider (skip) "\<not> ?P" "?A" | (wrap) "?P" "?A" | (inner) "\<not> ?A" "?P" "edge"
    | (plain) "\<not> ?A" "\<not> (?P \<and> edge)"
    by blast
  then show ?thesis
  proof cases
    case skip
    then have "\<forall>ts. search_step g c i val1 j (ind, edge, ts) =
        (ind, edge, if False then addTaskToCurrentList (grank g * i + j) ts else ts)"
      by (simp add: search_step_def)
    then show ?thesis by blast
  next
    case wrap
    then have "\<forall>ts. search_step g c i val1 j (ind, edge, ts) =
        (ind[j := 0, j := gnbin g ! j - 1], False,
         if val1 * (gvalue g (getIndex g (ind[j := 0])) - c) < 0
         then addTaskToCurrentList (grank g * i + j) ts else ts)"
      by (simp add: search_step_def Let_def)
    then show ?thesis by blast
  next
    case inner
    then have "\<forall>ts. search_step g c i val1 j (ind, edge, ts) =
        (ind[j := ind ! j + 1, j := gnbin g ! j - 1], False,
         if val1 * (gvalue g (getIndex g (ind[j := ind ! j + 1])) - c) < 0
         then addTaskToCurrentList (grank g * i + j) ts else ts)"
      by (simp add: search_step_def Let_def)
    then show ?thesis by blast
  next
    case plain
    then have "\<forall>ts. search_step g c i val1 j (ind, edge, ts) =
        (ind[j := ind ! j + 1, j := (ind[j := ind ! j + 1]) ! j - 1], edge,
         if val1 * (gvalue g (getIndex g (ind[j := ind ! j + 1])) - c) < 0
         then addTaskToCurrentList (grank g * i + j) ts else ts)"
      by (simp add: search_step_def Let_def)
    then show ?thesis by blast
  qed
qed

lemma search_dims_shape:
  "\<exists>ind' edge' l. \<forall>ts. search_dims g c i val1 js (ind, edge, ts) =
      (ind', edge', fold addTaskToCurrentList l ts)"
proof (induction js arbitrary: ind edge)
  case Nil
  have "\<forall>ts. search_dims g c i val1 [] (ind, edge, ts) = (ind, edge, fold addTaskToCurrentList [] ts)"
    by simp
  then show ?case by blast
next
  case (Cons j js)
  obtain ind1 edge1 b where s1: "\<And>ts. search_step g c i val1 j (ind, edge, ts) =
      (ind1, edge1, if b then addTaskToCurrentList (grank g * i + j) ts else ts)"
    using search_step_shape [of g c i val1 j ind edge] by blast
  obtain ind2 edge2 l where s2: "\<And>ts. search_dims g c i val1 js (ind1, edge1, ts) =
      (ind2, edge2, fold addTaskToCurrentList l ts)"
    using Cons.IH [of ind1 edge1] by blast
  have "\<forall>ts. search_dims g c i val1 (j # js) (ind, edge, ts) =
      (ind2, edge2, fold addTaskToCurrentList ((if b then [grank g * i + j] else []) @ l) ts)"
    by (simp add: s1 s2)
  then show ?case by blast
qed

lemma search_point_shape:
  "\<exists>l. \<forall>ts. search_point g c i ts = fold addTaskToCurrentList l ts"
proof -
  obtain ind' edge' l where "\<And>ts. search_dims g c i (gvalue g i - c) [0..<grank g] (getIndices g i, False, ts) =
      (ind', edge', fold addTaskToCurrentList l ts)"
    using search_dims_shape [of g c i "gvalue g i - c" "[0..<grank g]" "getIndices g i" False] by blast
  then have "\<forall>ts. search_point g c i ts = fold addTaskToCurrentList l ts"
    by (simp add: search_point_def)
  then show ?thesis by blast
qed

lemma search_points_shape:
  "\<exists>l. \<forall>ts. search_points g c is ts = fold addTaskToCurrentList l ts"
proof (induction "is")
  case Nil
  have "\<forall>ts. search_points g c [] ts = fold addTaskToCurrentList [] ts" by simp
  then show ?case by blast
next
  case (Cons i "is")
  obtain l1 where l1: "\<And>ts. search_point g c i ts = fold addTaskToCurrentList l1 ts"
    using search_point_shape [of g c i] by blast
  obtain l2 where l2: "\<And>ts. search_points g c is ts = fold addTaskToCurrentList l2 ts"
    using Cons.IH by blast
  have "\<forall>ts. search_points g c (i # is) ts = fold addTaskToCurrentList (l1 @ l2) ts"
    by (simp add: l1 l2)
  then show ?case by blast
qed

lemma set_fold_addTask: "set (fold addTaskToCurrentList l ts) = set l \<union> set ts"
  by (induction l arbitrary: ts) (auto simp: set_addTaskToCurrentList)

lemma fold_addTask_absorbed: "set l \<subseteq> set ts \<Longrightarrow> fold addTaskToCurrentList l ts = ts"
  by (induction l arbitrary: ts) (auto simp: addTaskToCurrentList_def)

lemma setupCurrentTaskList_twice:
  "setupCurrentTaskList g c (setupCurrentTaskList g c ts) = setupCurrentTaskList g c ts"
proof -
  obtain l where l: "\<And>ts. search_points g c [0..<gnpoints g] ts = fold addTaskToCurrentList l ts"
    using search_points_shape [of g c "[0..<gnpoints g]"] by blast
  have "set l \<subseteq> set (fold addTaskToCurrentList l ts)"
    by (simp add: set_fold_addTask)
  then show ?thesis
    by (simp add: setupCurrentTaskList_def l fold_addTask_absorbed)
qed

text \<open>
  The search of \<^verbatim>\<open>performTask\<close> for the task of the edge that leaves grid point
  \<open>i\<close> along dimension \<open>j\<close>: it starts at the coordinates of grid point \<open>i\<close>,
  and its direction has \<open>0.999999999\<close> times the grid spacing in component
  \<open>j\<close> and zero in every other component.
\<close>

lemma performTask_search_direction:
  assumes "j < grank g"
  shows "findcontour_performTask g findContour (grank g * i + j) =
           findContour (search_direction g (grank g * i + j)) (getGridPointCoordinates g i)"
    and "length (search_direction g (grank g * i + j)) = grank g"
    and "search_direction g (grank g * i + j) ! j = 0.999999999 * getGridSpacing g ! j"
    and "k < grank g \<Longrightarrow> k \<noteq> j \<Longrightarrow> search_direction g (grank g * i + j) ! k = 0"
  using assms by (simp_all add: findcontour_performTask_def search_direction_def)

section \<open>Properties of the strands cutoff\<close>

lemma length_flag_strands [simp]: "length (flag_strands ss is tflags) = length tflags"
  by (induction "is" arbitrary: tflags) simp_all

lemma nth_flag_strands:
  "k < length tflags \<Longrightarrow>
   flag_strands ss is tflags ! k =
     (if k \<in> set is \<and> strand_distance2 ss k < s_cutoff2 ss then 1 else tflags ! k)"
proof (induction "is" arbitrary: tflags)
  case Nil
  then show ?case by simp
next
  case (Cons i "is")
  then show ?case by (cases "i = k") (auto simp: nth_list_update)
qed

lemma flag_strands_twice:
  "flag_strands ss [0..<length tflags] (flag_strands ss [0..<length tflags] tflags) =
   flag_strands ss [0..<length tflags] tflags"
  by (rule nth_equalityI) (auto simp: nth_flag_strands)

lemma buildCurrentTaskList_flags_twice:
  "snd (snd (buildCurrentTaskList ss (buildCurrentTaskList ss st))) =
   snd (snd (buildCurrentTaskList ss st))"
proof -
  obtain f a t where st: "st = (f, a, t)" by (cases st) auto
  show ?thesis
    using flag_strands_twice [of ss t] by (simp add: st buildCurrentTaskList_def)
qed

lemma active_tasks_runAllTasks:
  assumes "s_cutoff2 ss > 0"
  shows "active_tasks (runAllTasks ss pt) =
           filter (\<lambda>i. strand_distance2 ss i < s_cutoff2 ss) [0..<length (colvar_atoms ss)]"
proof -
  have "filter (\<lambda>i. flag_strands ss [0..<length (colvar_atoms ss)]
                        (replicate (length (colvar_atoms ss)) 0) ! i > 0) [0..<length (colvar_atoms ss)]
        = filter (\<lambda>i. strand_distance2 ss i < s_cutoff2 ss) [0..<length (colvar_atoms ss)]"
    by (rule filter_cong) (auto simp: nth_flag_strands)
  then show ?thesis
    using assms by (simp add: runAllTasks_def buildCurrentTaskList_def Let_def)
qed

lemma strands_cutoff_positive:
  "snd (read_strands_cutoff keyword_exists parsed) > 0 \<longleftrightarrow>
     keyword_exists \<and> (\<exists>c. parsed = Some c \<and> c \<noteq> 0)"
  by (cases parsed) (auto simp: read_strands_cutoff_def Let_def zero_less_mult_iff)

text \<open>
  Claim C5.  With \<open>s_cutoff2 > 0\<close>, task \<open>i\<close> is on the active task list of
  a step exactly when the squared periodic-image distance between its two
  marker atoms is strictly less than \<open>s_cutoff2\<close>; a task that fails the test
  is not on the list, has value zero, and the task computation is not called
  for it.  The last conjunct is the filter of the source on its own: started
  on flags that are all zero, \<^verbatim>\<open>buildCurrentTaskList\<close> sets the flag of task
  \<open>i\<close> exactly when the distance test passes.
\<close>

theorem strands_cutoff_selects_tasks:
  assumes "s_cutoff2 ss > 0" and "i < length (colvar_atoms ss)"
  shows "(i \<in> set (active_tasks (runAllTasks ss pt)) \<longleftrightarrow> strand_distance2 ss i < s_cutoff2 ss) \<and>
         (\<not> strand_distance2 ss i < s_cutoff2 ss \<longrightarrow>
            task_values (runAllTasks ss pt) ! i = 0 \<and>
            i \<notin> set (performed (runAllTasks ss pt))) \<and>
         (snd (snd (buildCurrentTaskList ss (f, sel, replicate (length (colvar_atoms ss)) 0))) ! i = 1
            \<longleftrightarrow> strand_distance2 ss i < s_cutoff2 ss)"
proof -
  have a: "active_tasks (runAllTasks ss pt) =
           filter (\<lambda>i. strand_distance2 ss i < s_cutoff2 ss) [0..<length (colvar_atoms ss)]"
    using assms(1) by (rule active_tasks_runAllTasks)
  have p: "performed (runAllTasks ss pt) = active_tasks (runAllTasks ss pt)"
    by (simp add: runAllTasks_def Let_def split: prod.splits)
  have v: "task_values (runAllTasks ss pt) ! i =
           (if i \<in> set (active_tasks (runAllTasks ss pt)) then pt i else 0)"
    using assms(2) by (simp add: runAllTasks_def Let_def split: prod.splits)
  have b: "snd (snd (buildCurrentTaskList ss (f, sel, replicate (length (colvar_atoms ss)) 0))) ! i = 1
            \<longleftrightarrow> strand_distance2 ss i < s_cutoff2 ss"
    using assms by (simp add: buildCurrentTaskList_def nth_flag_strands)
  show ?thesis using a p v b assms(2) by auto
qed

theorem strands_cutoff_selects_tasks_witness:
  "s_cutoff2 example_strands > 0 \<and> 1 < length (colvar_atoms example_strands) \<and>
   \<not> strand_distance2 example_strands 1 < s_cutoff2 example_strands \<and>
   1 \<notin> set (active_tasks (runAllTasks example_strands (\<lambda>i. 1))) \<and>
   task_values (runAllTasks example_strands (\<lambda>i. 1)) ! 1 = 0 \<and>
   strand_distance2 example_strands 0 < s_cutoff2 example_strands \<and>
   0 \<in> set (active_tasks (runAllTasks example_strands (\<lambda>i. 1)))"
proof -
  have h1: "s_cutoff2 example_strands > 0"
    by (simp add: example_strands_def)
  have h2: "1 < length (colvar_atoms example_strands)" and h0: "0 < length (colvar_atoms example_strands)"
    by (simp_all add: example_strands_def)
  have far: "\<not> strand_distance2 example_strands 1 < s_cutoff2 example_strands"
    by (simp add: example_strands_def strand_distance2_def modulo2_def)
  have near: "strand_distance2 example_strands 0 < s_cutoff2 example_strands"
    by (simp add: example_strands_def strand_distance2_def modulo2_def)
  from strands_cutoff_selects_tasks [OF h1 h2, of "\<lambda>i. 1"] far
    strands_cutoff_selects_tasks [OF h1 h0, of "\<lambda>i. 1"] near h1 h2
  show ?thesis by blast
qed

section \<open>Building a task list twice\<close>

text \<open>
  Claim C9.  Building the task list a second time on the same grid values, or
  on the same atom positions, gives the same task list as building it once:
  \<^verbatim>\<open>FindContour::setupCurrentTaskList\<close> leaves the current task list as its first
  run left it, and \<^verbatim>\<open>SecondaryStructureRMSD::buildCurrentTaskList\<close> leaves the
  task flags as its first run left them.
\<close>

theorem task_list_construction_idempotent:
  "setupCurrentTaskList g c (setupCurrentTaskList g c ts) = setupCurrentTaskList g c ts \<and>
   snd (snd (buildCurrentTaskList ss (buildCurrentTaskList ss st))) =
     snd (snd (buildCurrentTaskList ss st))"
  using setupCurrentTaskList_twice [of g c ts] buildCurrentTaskList_flags_twice [of ss st]
  by simp

section \<open>Properties of the box derivatives and of the active indices\<close>

lemma addDerivative_simps [simp]:
  "mv_derivatives (addDerivative w j d m) c k =
     (if c = w \<and> k = j then mv_derivatives m c k + d else mv_derivatives m c k)"
  "mv_values (addDerivative w j d m) = mv_values m"
  "mv_active (addDerivative w j d m) = mv_active m"
  "mv_task_index (addDerivative w j d m) = mv_task_index m"
  by (simp_all add: addDerivative_def)



lemma filter_offset_upt:
  "filter (\<lambda>k. n + k = x) [0..<m] = (if n \<le> x \<and> x - n < m then [x - n] else [])"
  by (induction m) auto

lemma fold_addDerivative_derivatives:
  "mv_derivatives (fold (\<lambda>k. addDerivative w (n + k) (f k)) ks m) c x =
     mv_derivatives m c x + (if c = w then sum_list (map f (filter (\<lambda>k. n + k = x) ks)) else 0)"
  by (induction ks arbitrary: m) auto

lemma multicolvar_addBoxDerivatives_derivatives:
  assumes "\<not> mc_doNotCalculateDerivatives mc"
  shows "mv_derivatives (multicolvar_addBoxDerivatives mc ival vir m) c k =
           mv_derivatives m c k +
           (if c = ival then box_contribution (3 * mc_getNumberOfAtoms mc) vir k else 0)"
proof -
  have "sum_list (map (\<lambda>k. vir (k div 3) (k mod 3))
          (filter (\<lambda>j. 3 * mc_getNumberOfAtoms mc + j = k) [0..<9])) =
        box_contribution (3 * mc_getNumberOfAtoms mc) vir k"
    by (auto simp: filter_offset_upt box_contribution_def)
  then show ?thesis
    using assms
    by (simp add: multicolvar_addBoxDerivatives_def fold_addDerivative_derivatives)
qed

lemma virial_loop_sum:
  "virial_loop mc ival fpositions m t is vir a b =
     vir a b - (\<Sum>i \<leftarrow> filter (newi (ablocks mc) t) is.
                 outer (fpositions ! i) (atom_derivative m ival (atom_of mc t i)) a b)"
  by (induction "is" arbitrary: vir)
     (simp_all add: tensor_sub_def atom_derivative_def atom_of_def)

lemma setBoxDerivativesNoPbc_derivatives:
  assumes "\<not> mc_doNotCalculateDerivatives mc"
  shows "mv_derivatives (setBoxDerivativesNoPbc mc ival fpositions m) c k =
           mv_derivatives m c k +
           (if c = ival
            then box_contribution (3 * mc_getNumberOfAtoms mc)
                   (\<lambda>a b. - virial_sum mc ival fpositions m a b) k
            else 0)"
proof -
  have "virial_loop mc ival fpositions m (mv_task_index m) [0..<length (ablocks mc)] tensor_zero =
        (\<lambda>a b. - virial_sum mc ival fpositions m a b)"
    by (intro ext) (simp add: virial_loop_sum tensor_zero_def virial_sum_def first_positions_def)
  then show ?thesis
    using assms
    by (simp add: setBoxDerivativesNoPbc_def Let_def multicolvar_addBoxDerivatives_derivatives)
qed

lemma newi_iff: "newi ab t i \<longleftrightarrow> (\<forall>j < i. ab ! j ! t \<noteq> ab ! i ! t)"
  by (auto simp: newi_def list_ex_iff)

lemma first_positions_distinct_atoms:
  "distinct (map (atom_of mc t) (first_positions mc t))"
proof -
  have "inj_on (atom_of mc t) (set (first_positions mc t))"
  proof (rule inj_onI)
    fix i j
    assume i: "i \<in> set (first_positions mc t)" and j: "j \<in> set (first_positions mc t)"
      and e: "atom_of mc t i = atom_of mc t j"
    show "i = j"
    proof (rule ccontr)
      assume "i \<noteq> j"
      then consider "i < j" | "j < i" by linarith
      then show False
        using i j e by cases (auto simp: first_positions_def newi_iff atom_of_def)
    qed
  qed
  moreover have "distinct (first_positions mc t)"
    by (simp add: first_positions_def)
  ultimately show ?thesis by (simp add: distinct_map)
qed

lemma first_positions_all_atoms:
  "set (map (atom_of mc t) (first_positions mc t)) = atom_of mc t ` {0..<length (ablocks mc)}"
proof
  show "set (map (atom_of mc t) (first_positions mc t)) \<subseteq> atom_of mc t ` {0..<length (ablocks mc)}"
    by (auto simp: first_positions_def)
next
  show "atom_of mc t ` {0..<length (ablocks mc)} \<subseteq> set (map (atom_of mc t) (first_positions mc t))"
  proof
    fix a
    assume "a \<in> atom_of mc t ` {0..<length (ablocks mc)}"
    then have ex: "\<exists>i. i < length (ablocks mc) \<and> atom_of mc t i = a" by auto
    define i where "i = (LEAST i. i < length (ablocks mc) \<and> atom_of mc t i = a)"
    have i: "i < length (ablocks mc) \<and> atom_of mc t i = a"
      unfolding i_def using ex by (rule LeastI_ex)
    have "\<forall>j < i. atom_of mc t j \<noteq> a"
    proof (intro allI impI)
      fix j assume "j < i"
      then have "\<not> (j < length (ablocks mc) \<and> atom_of mc t j = a)"
        unfolding i_def by (rule not_less_Least)
      then show "atom_of mc t j \<noteq> a" using \<open>j < i\<close> i by auto
    qed
    then have "newi (ablocks mc) t i"
      using i by (auto simp: newi_iff atom_of_def)
    then have "i \<in> set (first_positions mc t)"
      using i by (simp add: first_positions_def)
    then show "a \<in> set (map (atom_of mc t) (first_positions mc t))"
      using i by force
  qed
qed

lemma updateIndex_simps [simp]:
  "mv_active (updateIndex p x m) c = (if c = p then mv_active m c @ [x] else mv_active m c)"
  "mv_derivatives (updateIndex p x m) = mv_derivatives m"
  "mv_values (updateIndex p x m) = mv_values m"
  "mv_task_index (updateIndex p x m) = mv_task_index m"
  by (simp_all add: updateIndex_def)

lemma count_update_components:
  "count_list (mv_active (update_components base ps m) c) x =
     count_list (mv_active m c) x +
     count_list ps c * (if x = base \<or> x = base + 1 \<or> x = base + 2 then 1 else 0)"
  by (induction ps arbitrary: m) auto

lemma count_update_atoms:
  "count_list (mv_active (update_atoms mc t is m) c) x =
     count_list (mv_active m c) x +
     count_list (mc_stream mc) c *
       length (filter (\<lambda>i. newi (ablocks mc) t i \<and>
                 (x = 3 * atom_of mc t i \<or> x = 3 * atom_of mc t i + 1 \<or> x = 3 * atom_of mc t i + 2)) is)"
  by (induction "is" arbitrary: m) (auto simp: count_update_components atom_of_def algebra_simps)

lemma count_fold_box:
  "x < nvir \<Longrightarrow>
   count_list (mv_active (fold (\<lambda>i. updateIndex p (nvir + i)) ks m) c) x = count_list (mv_active m c) x"
  by (induction ks arbitrary: m) auto

lemma count_update_box:
  "x < nvir \<Longrightarrow>
   count_list (mv_active (update_box nvir ps m) c) x = count_list (mv_active m c) x"
  by (induction ps arbitrary: m) (auto simp: count_fold_box)

lemma distinct_count_one: "distinct xs \<Longrightarrow> x \<in> set xs \<Longrightarrow> count_list xs x = 1"
  by (induction xs) auto

lemma length_filter_count_map: "length (filter (\<lambda>j. f j = a) xs) = count_list (map f xs) a"
  by (induction xs) auto

lemma slot_of_atom:
  fixes a b k :: nat
  assumes "k < 3"
  shows "(3 * a + k = 3 * b \<or> 3 * a + k = 3 * b + 1 \<or> 3 * a + k = 3 * b + 2) \<longleftrightarrow> b = a"
  using assms by presburger

lemma first_occurrences_of_atom:
  assumes "i < length (ablocks mc)" and "k < 3"
  shows "length (filter (\<lambda>j. newi (ablocks mc) t j \<and>
            (3 * atom_of mc t i + k = 3 * atom_of mc t j \<or>
             3 * atom_of mc t i + k = 3 * atom_of mc t j + 1 \<or>
             3 * atom_of mc t i + k = 3 * atom_of mc t j + 2)) [0..<length (ablocks mc)]) = 1"
proof -
  let ?a = "atom_of mc t i"
  have eq: "\<And>j. (3 * ?a + k = 3 * atom_of mc t j \<or> 3 * ?a + k = 3 * atom_of mc t j + 1 \<or>
             3 * ?a + k = 3 * atom_of mc t j + 2) \<longleftrightarrow> atom_of mc t j = ?a"
    using slot_of_atom [OF assms(2)] by blast
  have "filter (\<lambda>j. newi (ablocks mc) t j \<and>
            (3 * ?a + k = 3 * atom_of mc t j \<or> 3 * ?a + k = 3 * atom_of mc t j + 1 \<or>
             3 * ?a + k = 3 * atom_of mc t j + 2)) [0..<length (ablocks mc)] =
        filter (\<lambda>j. newi (ablocks mc) t j \<and> atom_of mc t j = ?a) [0..<length (ablocks mc)]"
    by (simp only: eq)
  then have "filter (\<lambda>j. newi (ablocks mc) t j \<and>
            (3 * ?a + k = 3 * atom_of mc t j \<or> 3 * ?a + k = 3 * atom_of mc t j + 1 \<or>
             3 * ?a + k = 3 * atom_of mc t j + 2)) [0..<length (ablocks mc)] =
        filter (\<lambda>j. atom_of mc t j = ?a) (first_positions mc t)"
    by (simp add: first_positions_def)
  moreover have "length (filter (\<lambda>j. atom_of mc t j = ?a) (first_positions mc t)) =
        count_list (map (atom_of mc t) (first_positions mc t)) ?a"
    by (rule length_filter_count_map)
  moreover have "?a \<in> set (map (atom_of mc t) (first_positions mc t))"
    using assms(1) first_positions_all_atoms [of mc t] by auto
  ultimately show ?thesis
    using distinct_count_one [OF first_positions_distinct_atoms, of ?a mc t] by simp
qed

lemma performTask_registers_once:
  assumes "\<not> mc_doNotCalculateDerivatives mc"
    and "mc_getNumberOfDerivatives mc \<noteq> mc_getNumberOfAtoms mc"
    and "distinct (mc_stream mc)" and "p \<in> set (mc_stream mc)"
    and "i < length (ablocks mc)" and "atom_of mc t i < mc_getNumberOfAtoms mc" and "k < 3"
  shows "count_list (mv_active (performTask mc t m) p) (3 * atom_of mc t i + k) =
         count_list (mv_active (compute mc (task_positions mc t) m) p) (3 * atom_of mc t i + k) + 1"
proof -
  have x: "3 * atom_of mc t i + k < 3 * mc_getNumberOfAtoms mc"
    using assms(6,7) by linarith
  have c: "count_list (mc_stream mc) p = 1"
    using assms(3,4) by (rule distinct_count_one)
  show ?thesis
    using assms(1,2) x c first_occurrences_of_atom [OF assms(5,7), of t]
    by (simp add: performTask_def Let_def count_update_box count_update_atoms)
qed

lemma performTask_without_derivatives:
  "mc_doNotCalculateDerivatives mc \<or> mc_getNumberOfDerivatives mc = mc_getNumberOfAtoms mc \<Longrightarrow>
   performTask mc t m = compute mc (task_positions mc t) m"
  by (auto simp: performTask_def Let_def)





lemma first_positions_example [simp]: "first_positions example_multicolvar 0 = [0, 2]"
  by (simp add: first_positions_def example_multicolvar_def newi_def upt_rec)



text \<open>
  Claim C10, as amended.  When derivatives are calculated and the number of
  derivatives is not the number of atoms, \<^verbatim>\<open>performTask\<close> puts each of the three
  derivative indices of an atom of the task on the active list of each output
  component exactly once more than \<open>compute\<close> left it there, however many
  positions of the task hold that atom; and the virial that
  \<^verbatim>\<open>setBoxDerivativesNoPbc\<close> adds is the sum over the first positions of the
  atoms, which hold each atom of the task exactly once.  (The stream
  positions of the components are distinct and the atom is one of the
  \<^verbatim>\<open>getNumberOfAtoms()\<close> atoms.)  When derivatives are not calculated, or the
  number of derivatives is the number of atoms, \<^verbatim>\<open>performTask\<close> registers
  nothing.
\<close>

theorem duplicated_atom_counted_once:
  "(\<not> mc_doNotCalculateDerivatives mc \<and> mc_getNumberOfDerivatives mc \<noteq> mc_getNumberOfAtoms mc \<and>
    distinct (mc_stream mc) \<and> p \<in> set (mc_stream mc) \<and>
    i < length (ablocks mc) \<and> atom_of mc t i < mc_getNumberOfAtoms mc \<and> k < 3 \<longrightarrow>
      count_list (mv_active (performTask mc t m) p) (3 * atom_of mc t i + k) =
        count_list (mv_active (compute mc (task_positions mc t) m) p) (3 * atom_of mc t i + k) + 1) \<and>
   (mc_doNotCalculateDerivatives mc \<or> mc_getNumberOfDerivatives mc = mc_getNumberOfAtoms mc \<longrightarrow>
      performTask mc t m = compute mc (task_positions mc t) m) \<and>
   (\<not> mc_doNotCalculateDerivatives mc \<longrightarrow>
      mv_derivatives (setBoxDerivativesNoPbc mc ival fpositions m') c x =
        mv_derivatives m' c x +
        (if c = ival
         then box_contribution (3 * mc_getNumberOfAtoms mc)
                (\<lambda>a b. - virial_sum mc ival fpositions m' a b) x
         else 0)) \<and>
   (mc_doNotCalculateDerivatives mc \<longrightarrow> setBoxDerivativesNoPbc mc ival fpositions m' = m') \<and>
   distinct (map (atom_of mc t) (first_positions mc t)) \<and>
   set (map (atom_of mc t) (first_positions mc t)) = atom_of mc t ` {0..<length (ablocks mc)}"
proof -
  have "mc_doNotCalculateDerivatives mc \<Longrightarrow> setBoxDerivativesNoPbc mc ival fpositions m' = m'"
    by (simp add: setBoxDerivativesNoPbc_def)
  then show ?thesis
    using performTask_registers_once [of mc p i t k m]
      performTask_without_derivatives [of mc t m]
      setBoxDerivativesNoPbc_derivatives [of mc ival fpositions m' c x]
      first_positions_distinct_atoms [of mc t] first_positions_all_atoms [of mc t]
    by blast
qed

theorem duplicated_atom_counted_once_witness:
  "atom_of example_multicolvar 0 0 = atom_of example_multicolvar 0 1 \<and>
   count_list (mv_active (performTask example_multicolvar 0 example_record) 0)
      (3 * atom_of example_multicolvar 0 1 + 2) = 1 \<and>
   map (atom_of example_multicolvar 0) (first_positions example_multicolvar 0) = [0, 1]"
proof -
  have h: "\<not> mc_doNotCalculateDerivatives example_multicolvar \<and>
      mc_getNumberOfDerivatives example_multicolvar \<noteq> mc_getNumberOfAtoms example_multicolvar \<and>
      distinct (mc_stream example_multicolvar) \<and> 0 \<in> set (mc_stream example_multicolvar) \<and>
      1 < length (ablocks example_multicolvar) \<and>
      atom_of example_multicolvar 0 1 < mc_getNumberOfAtoms example_multicolvar \<and>
      (2::nat) < 3"
    by (simp add: example_multicolvar_def atom_of_def)
  have c: "mv_active (compute example_multicolvar (task_positions example_multicolvar 0) example_record) 0 = []"
    by (simp add: example_multicolvar_def example_record_def)
  have a: "atom_of example_multicolvar 0 0 = atom_of example_multicolvar 0 1"
    by (simp add: example_multicolvar_def atom_of_def)
  have f: "map (atom_of example_multicolvar 0) (first_positions example_multicolvar 0) = [0, 1]"
    by (simp only: first_positions_example) (simp add: atom_of_def example_multicolvar_def)
  from duplicated_atom_counted_once
    [of example_multicolvar 0 1 0 2 example_record 0 example_positions example_record 0 0] h c
  have "count_list (mv_active (performTask example_multicolvar 0 example_record) 0)
          (3 * atom_of example_multicolvar 0 1 + 2) = 1"
    by simp
  with a f show ?thesis by blast
qed

text \<open>
  The claim as it is written fails when derivatives are not calculated: atom
  \<open>0\<close> is in two positions of the task, and its derivative index is on the
  active list not once but not at all.
\<close>

theorem duplicated_atom_counterexample:
  "atom_of example_multicolvar_noderiv 0 0 = atom_of example_multicolvar_noderiv 0 1 \<and>
   count_list (mv_active (performTask example_multicolvar_noderiv 0 example_record) 0)
      (3 * atom_of example_multicolvar_noderiv 0 0) = 0"
  by (simp add: example_multicolvar_noderiv_def example_record_def atom_of_def performTask_def)

section \<open>Properties of the argument requests and of the chain set-up\<close>

lemma collect_chain_labels:
  "collect_chain env lab vals as (al, fs) = Inr (al', fs') \<Longrightarrow>
   argument_labels env vals as al = Inr al'"
  by (induction as arbitrary: al fs) (auto simp: Let_def split: option.splits)

lemma collect_chain_succeeds:
  "\<forall>a \<in> set as. getPntrToAction (vals a) \<noteq> None \<Longrightarrow>
   \<exists>al' fs'. collect_chain env lab vals as (al, fs) = Inr (al', fs')"
  by (induction as arbitrary: al fs) (auto simp: Let_def split: option.splits)

lemma refused_result:
  "refusal_keeps_chain add \<Longrightarrow> \<not> fst (add c p ls x) \<Longrightarrow> add c p ls x = (False, c)"
  by (simp add: prod_eq_iff refusal_keeps_chain_def)

lemma add_to_chain_refused:
  assumes H: "refusal_keeps_chain add"
    and "\<forall>a \<in> set as. getPntrToAction (vals a) \<noteq> None"
    and "\<not> list_ex (accepts env vals add c al this) as"
  shows "add_to_chain env vals add al this as (added, all_setup, c) =
           Inr (added, all_setup \<and> \<not> list_ex (chainable env vals) as, c)"
  using assms(2,3)
proof (induction as arbitrary: all_setup)
  case Nil
  then show ?case by simp
next
  case (Cons a as)
  from Cons.prems obtain p where p: "getPntrToAction (vals a) = Some p" by auto
  show ?case
  proof (cases "canChainFromThisAction (actions env p) \<and> getRank (vals a) > 0")
    case True
    with Cons.prems p have "\<not> fst (add c p al this)"
      by (simp add: accepts_def)
    then have "add c p al this = (False, c)"
      by (simp add: refused_result [OF H])
    then show ?thesis
      using Cons p True by (simp add: chainable_def)
  next
    case False
    then show ?thesis
      using Cons p by (auto simp: chainable_def)
  qed
qed

lemma add_to_chain_accepted:
  assumes H: "refusal_keeps_chain add"
    and "\<forall>a \<in> set as. getPntrToAction (vals a) \<noteq> None"
    and "list_ex (accepts env vals add c al this) as"
  shows "\<exists>s c'. add_to_chain env vals add al this as (added, all_setup, c) = Inr (True, s, c')"
  using assms(2,3)
proof (induction as arbitrary: all_setup)
  case Nil
  then show ?case by simp
next
  case (Cons a as)
  from Cons.prems obtain p where p: "getPntrToAction (vals a) = Some p" by auto
  show ?case
  proof (cases "accepts env vals add c al this a")
    case True
    then show ?thesis
      using p by (auto simp: accepts_def split: prod.splits)
  next
    case False
    then have rest: "list_ex (accepts env vals add c al this) as"
      using Cons.prems by simp
    show ?thesis
    proof (cases "canChainFromThisAction (actions env p) \<and> getRank (vals a) > 0")
      case True
      with False p have "\<not> fst (add c p al this)"
        by (simp add: accepts_def)
      then have "add c p al this = (False, c)"
        by (simp add: refused_result [OF H])
      then show ?thesis
        using Cons.IH [of False] Cons.prems rest p True by simp
    next
      case F2: False
      then show ?thesis
        using Cons.IH [of "if canChainFromThisAction (actions env p) then False else all_setup"]
          Cons.prems rest p by auto
    qed
  qed
qed

lemma histogram_add_refused:
  assumes H: "refusal_keeps_chain add"
    and "\<forall>a \<in> set as. getPntrToAction (vals a) \<noteq> None"
    and "\<not> list_ex (histogram_accepts vals add c al this) as"
  shows "histogram_add vals add al this as c = Inr (False, c)"
  using assms(2,3)
proof (induction as)
  case Nil
  then show ?case by simp
next
  case (Cons a as)
  from Cons.prems obtain p where p: "getPntrToAction (vals a) = Some p" by auto
  show ?case
  proof (cases "getRank (vals a) > 0")
    case True
    with Cons.prems p have "\<not> fst (add c p al this)"
      by (simp add: histogram_accepts_def)
    then have "add c p al this = (False, c)"
      by (simp add: refused_result [OF H])
    then show ?thesis
      using Cons p True by simp
  next
    case False
    then show ?thesis
      using Cons p by simp
  qed
qed

lemma histogram_add_accepted:
  assumes H: "refusal_keeps_chain add"
    and "\<forall>a \<in> set as. getPntrToAction (vals a) \<noteq> None"
    and "list_ex (histogram_accepts vals add c al this) as"
  shows "\<exists>c'. histogram_add vals add al this as c = Inr (True, c')"
  using assms(2,3)
proof (induction as)
  case Nil
  then show ?case by simp
next
  case (Cons a as)
  from Cons.prems obtain p where p: "getPntrToAction (vals a) = Some p" by auto
  show ?case
  proof (cases "histogram_accepts vals add c al this a")
    case True
    then show ?thesis
      using p by (auto simp: histogram_accepts_def split: prod.splits)
  next
    case False
    then have rest: "list_ex (histogram_accepts vals add c al this) as"
      using Cons.prems by simp
    show ?thesis
    proof (cases "getRank (vals a) > 0")
      case True
      with False p have "\<not> fst (add c p al this)"
        by (simp add: histogram_accepts_def)
      then have "add c p al this = (False, c)"
        by (simp add: refused_result [OF H])
      then show ?thesis
        using Cons.IH Cons.prems rest p True by simp
    next
      case F2: False
      then show ?thesis
        using Cons.IH Cons.prems rest p by simp
    qed
  qed
qed

lemma count_derivatives_not_could_not_add:
  "count_derivatives env vals args ds n \<noteq> Inl (CouldNotAddAction l)"
proof (induction ds arbitrary: n)
  case Nil
  then show ?case by simp
next
  case (Cons d ds)
  have av: "\<And>dl k as nd. argument_values env vals dl k as nd \<noteq> Inl (CouldNotAddAction l)"
  proof -
    fix dl k as nd
    show "argument_values env vals dl k as nd \<noteq> Inl (CouldNotAddAction l)"
      by (induction as arbitrary: nd) (auto split: option.splits)
  qed
  obtain a k where d: "d = (a, k)" by (cases d) auto
  show ?case
    using Cons.IH av unfolding d
    by (auto split: sum.splits)
qed



lemma buildDataStore_fields [simp]:
  "getRank (buildDataStore lab v) = getRank v"
  "isConstant (buildDataStore lab v) = isConstant v"
  "ntasks (buildDataStore lab v) = ntasks v"
  "getPntrToAction (buildDataStore lab v) = getPntrToAction v"
  "getName (buildDataStore lab v) = getName v"
  "alwaysstore (buildDataStore lab v) = alwaysstore v"
  by (simp_all add: buildDataStore_def)





lemma store_arg_fields [simp]:
  "getRank (store_arg lab b vals a) = getRank (vals a)"
  "isConstant (store_arg lab b vals a) = isConstant (vals a)"
  "ntasks (store_arg lab b vals a) = ntasks (vals a)"
  "getPntrToAction (store_arg lab b vals a) = getPntrToAction (vals a)"
  by (simp_all add: store_arg_def)
































text \<open>
  Claim C7.  In \<^verbatim>\<open>setupActionInChain\<close>, for an action that is done over the
  stream: the failure ``could not add action ... to chain of any of its
  arguments'' is the result exactly when some argument (from \<^verbatim>\<open>argstart\<close> on)
  is chainable and no argument accepts the action.  In the constructor of
  \<^verbatim>\<open>HistogramBase\<close> it is the result exactly when no argument of rank above
  zero accepts the histogram.  Both functions run once, while the action is
  constructed; the failure is their result, and nothing tries again.  (The
  hypotheses: a refused request leaves the chains as they were, and no
  argument has a null action.)
\<close>

theorem could_not_add_is_fatal:
  assumes H: "refusal_keeps_chain add"
    and dos: "done_over_stream self" and awv: "thisAsActionWithValue self"
    and nonnull: "\<forall>a \<in> set (arguments self). getPntrToAction (vals a) \<noteq> None"
  shows "(setupActionInChain env self this vals ds add c argstart =
            Inl (CouldNotAddAction (thisLabel self)) \<longleftrightarrow>
          list_ex (chainable env vals) (drop argstart (arguments self)) \<and>
          \<not> list_ex (accepts env vals add
                      (chain_with_upstream env (thisLabel self) vals add c (drop argstart (arguments self)))
                      (requested_labels env vals (drop argstart (arguments self))) this)
               (drop argstart (arguments self))) \<and>
         (histogram_chain env self this vals add c = Inl (CouldNotAddAction (thisLabel self)) \<longleftrightarrow>
          \<not> list_ex (histogram_accepts vals add c (requested_labels env vals (arguments self)) this)
               (arguments self))"
proof
  let ?args = "drop argstart (arguments self)"
  let ?lab = "thisLabel self"
  have nn: "\<forall>a \<in> set ?args. getPntrToAction (vals a) \<noteq> None"
    using nonnull by (meson in_set_dropD)
  obtain al fs where cc: "collect_chain env ?lab vals ?args ([], []) = Inr (al, fs)"
    using collect_chain_succeeds [OF nn] by blast
  have al: "requested_labels env vals ?args = al"
    using collect_chain_labels [OF cc] by (simp add: requested_labels_def)
  have fs: "upstream_actions env ?lab vals ?args = fs"
    using cc by (simp add: upstream_actions_def)
  define c1 where "c1 = chain_with_upstream env ?lab vals add c ?args"
  have c1: "c1 = (if fs \<noteq> [] then chain_upstream add (fs ! 0) [getLabel (actions env (fs ! 0))] (tl fs) c
                  else c)"
    by (simp add: c1_def chain_with_upstream_def fs)
  show "setupActionInChain env self this vals ds add c argstart = Inl (CouldNotAddAction ?lab) \<longleftrightarrow>
          list_ex (chainable env vals) ?args \<and>
          \<not> list_ex (accepts env vals add (chain_with_upstream env ?lab vals add c ?args)
                      (requested_labels env vals ?args) this) ?args"
  proof (cases "list_ex (accepts env vals add c1 al this) ?args")
    case True
    then obtain s c' where "add_to_chain env vals add al this ?args (False, True, c1) = Inr (True, s, c')"
      using add_to_chain_accepted [OF H nn, where added = False and all_setup = True] by blast
    then have "setupActionInChain env self this vals ds add c argstart \<noteq> Inl (CouldNotAddAction ?lab)"
      using dos awv cc c1 count_derivatives_not_could_not_add [of env vals "arguments self" ds 0 ?lab]
      by (auto simp: setupActionInChain_def Let_def split: sum.splits)
    then show ?thesis
      using True al c1_def by simp
  next
    case False
    then have r: "add_to_chain env vals add al this ?args (False, True, c1) =
                    Inr (False, \<not> list_ex (chainable env vals) ?args, c1)"
      using add_to_chain_refused [OF H nn, where added = False and all_setup = True] by simp
    have "setupActionInChain env self this vals ds add c argstart = Inl (CouldNotAddAction ?lab) \<longleftrightarrow>
            list_ex (chainable env vals) ?args"
      using dos awv cc c1 r count_derivatives_not_could_not_add [of env vals "arguments self" ds 0 ?lab]
      by (auto simp: setupActionInChain_def Let_def split: sum.splits)
    then show ?thesis
      using False al c1_def by simp
  qed
next
  let ?lab = "thisLabel self"
  obtain al fs where cc: "collect_chain env ?lab vals (arguments self) ([], []) = Inr (al, fs)"
    using collect_chain_succeeds [OF nonnull] by blast
  have lab: "argument_labels env vals (arguments self) [] = Inr al"
    using collect_chain_labels [OF cc] .
  then have al: "requested_labels env vals (arguments self) = al"
    by (simp add: requested_labels_def)
  show "histogram_chain env self this vals add c = Inl (CouldNotAddAction ?lab) \<longleftrightarrow>
          \<not> list_ex (histogram_accepts vals add c (requested_labels env vals (arguments self)) this)
               (arguments self)"
  proof (cases "list_ex (histogram_accepts vals add c al this) (arguments self)")
    case True
    then obtain c' where "histogram_add vals add al this (arguments self) c = Inr (True, c')"
      using histogram_add_accepted [OF H nonnull] by blast
    then show ?thesis
      using True al lab by (simp add: histogram_chain_def)
  next
    case False
    then have "histogram_add vals add al this (arguments self) c = Inr (False, c)"
      using histogram_add_refused [OF H nonnull] by blast
    then show ?thesis
      using False al lab by (simp add: histogram_chain_def)
  qed
qed

theorem could_not_add_is_fatal_witness:
  "list_ex (chainable example_env (example_heap 3 3)) [0, 2] \<and>
   setupActionInChain example_env (example_function [0, 2] True) 9 (example_heap 3 3) [] refuse () 0
     = Inl (CouldNotAddAction ''f'') \<and>
   histogram_chain example_env (example_function [0, 2] True) 9 (example_heap 3 3) refuse ()
     = Inl (CouldNotAddAction ''f'')"
proof -
  let ?self = "example_function [0, 2] True"
  let ?vals = "example_heap 3 3"
  have h1: "refusal_keeps_chain refuse"
    by (simp add: refusal_keeps_chain_def refuse_def)
  have h2: "done_over_stream ?self" and h3: "thisAsActionWithValue ?self"
    by code_simp+
  have h4: "\<forall>a \<in> set (arguments ?self). getPntrToAction (?vals a) \<noteq> None"
    by code_simp
  have c: "list_ex (chainable example_env ?vals) (drop 0 (arguments ?self))"
    by code_simp
  have n: "\<not> list_ex (accepts example_env ?vals refuse
              (chain_with_upstream example_env (thisLabel ?self) ?vals refuse () (drop 0 (arguments ?self)))
              (requested_labels example_env ?vals (drop 0 (arguments ?self))) 9)
            (drop 0 (arguments ?self))"
    by code_simp
  have m: "\<not> list_ex (histogram_accepts ?vals refuse ()
              (requested_labels example_env ?vals (arguments ?self)) 9) (arguments ?self)"
    by code_simp
  have l: "thisLabel ?self = ''f''"
    by code_simp
  have c': "list_ex (chainable example_env ?vals) [0, 2]"
    by code_simp
  note t = could_not_add_is_fatal [OF h1 h2 h3 h4,
      where env = example_env and this = 9 and ds = "[]" and c = "()" and argstart = 0]
  from t c n m
  have "setupActionInChain example_env ?self 9 ?vals [] refuse () 0
          = Inl (CouldNotAddAction (thisLabel ?self)) \<and>
        histogram_chain example_env ?self 9 ?vals refuse ()
          = Inl (CouldNotAddAction (thisLabel ?self))"
    by blast
  then show ?thesis using c' by (simp only: l) 
qed

end
